theory Spec2Isabelle
  imports Complex_Main "HOL-Library.Multiset"
begin

section \<open>Python values\<close>

text \<open>
  The fragment of Python's objects that \<^verbatim>\<open>universal_min_hash.py\<close> handles in its own code:
  \<^verbatim>\<open>None\<close>, booleans, unbounded integers, strings, tuples and dicts. A dict is the
  list of its items in iteration (insertion) order; Python keeps the keys of a dict
  pairwise different, which \<open>wf_dict\<close> states for every level of a nested dict.
  A \<open>char\<close> stands for a code point below 256. Where the code iterates over a tuple,
  a list or a set, the model takes the list of the items in iteration order.
\<close>

datatype pyval =
    PNone
  | PBool bool
  | PInt int
  | PStr string
  | PTuple "pyval list"
  | PDict "(pyval \<times> pyval) list"

type_synonym pydict = "(pyval \<times> pyval) list"

datatype py_error =
    Exception string
  | TypeError
  | ValueError
  | IndexError
  | OverflowError
  | AttributeError

fun is_dict :: "pyval \<Rightarrow> bool" where
  "is_dict (PDict d) = True"
| "is_dict v = False"

fun wf_dict :: "pydict \<Rightarrow> bool" where
  "wf_dict [] = True"
| "wf_dict ((k, v) # d) =
     (k \<notin> set (map fst d) \<and> (case v of PDict d' \<Rightarrow> wf_dict d' | _ \<Rightarrow> True) \<and> wf_dict d)"

subsection \<open>\<^verbatim>\<open>str\<close>, \<^verbatim>\<open>repr\<close> and \<^verbatim>\<open>encode('utf8')\<close>\<close>

definition digit_char :: "nat \<Rightarrow> char" where
  "digit_char n = ''0123456789abcdef'' ! n"

fun dec_nat :: "nat \<Rightarrow> string" where
  "dec_nat n = (if n < 10 then [digit_char n] else dec_nat (n div 10) @ [digit_char (n mod 10)])"

declare dec_nat.simps [simp del]

definition dec_int :: "int \<Rightarrow> string" where
  "dec_int i = (if i < 0 then CHR ''-'' # dec_nat (nat (- i)) else dec_nat (nat i))"

text \<open>
  Python's \<^verbatim>\<open>str.isprintable\<close> on the code points below 256: the controls, the
  no-break space and the soft hyphen are not printable.
\<close>

definition printable :: "char \<Rightarrow> bool" where
  "printable c = (let n = (of_char c :: nat) in (32 \<le> n \<and> n < 127) \<or> (161 \<le> n \<and> n \<noteq> 173))"

definition repr_char :: "char \<Rightarrow> char \<Rightarrow> string" where
  "repr_char q c =
     (if c = q \<or> c = CHR 0x5C then [CHR 0x5C, c]
      else if c = CHR 0x09 then [CHR 0x5C, CHR ''t'']
      else if c = CHR 0x0A then [CHR 0x5C, CHR ''n'']
      else if c = CHR 0x0D then [CHR 0x5C, CHR ''r'']
      else if printable c then [c]
      else [CHR 0x5C, CHR ''x'', digit_char (of_char c div 16), digit_char (of_char c mod 16)])"

text \<open>The quote is the apostrophe, unless the string has an apostrophe and no double quote.\<close>

definition repr_str :: "string \<Rightarrow> string" where
  "repr_str s =
     (let q = (if CHR 0x27 \<in> set s \<and> CHR 0x22 \<notin> set s then CHR 0x22 else CHR 0x27)
      in q # concat (map (repr_char q) s) @ [q])"

fun join :: "string \<Rightarrow> string list \<Rightarrow> string" where
  "join sep [] = []"
| "join sep [x] = x"
| "join sep (x # y # ys) = x @ sep @ join sep (y # ys)"

fun py_repr :: "pyval \<Rightarrow> string" where
  "py_repr PNone = ''None''"
| "py_repr (PBool b) = (if b then ''True'' else ''False'')"
| "py_repr (PInt i) = dec_int i"
| "py_repr (PStr s) = repr_str s"
| "py_repr (PTuple xs) =
     ''('' @ join '', '' (map py_repr xs) @ (if length xs = 1 then '','' else []) @ '')''"
| "py_repr (PDict d) =
     ''{'' @ join '', '' (map (\<lambda>kv. py_repr (fst kv) @ '': '' @ py_repr (snd kv)) d) @ ''}''"

fun py_str :: "pyval \<Rightarrow> string" where
  "py_str (PStr s) = s"
| "py_str v = py_repr v"

text \<open>UTF-8 of a code point below 256: one byte below 128, two bytes from there on.\<close>

definition encode_utf8 :: "string \<Rightarrow> string" where
  "encode_utf8 s =
     concat (map (\<lambda>c. let n = (of_char c :: nat) in
                       if n < 128 then [c] else [char_of (192 + n div 64), char_of (128 + n mod 64)]) s)"

subsection \<open>\<^verbatim>\<open>int\<close> and hashing\<close>

text \<open>
  \<^verbatim>\<open>int(key)\<close> on a string: white space around the literal is dropped, one sign may
  lead, and the digits may be grouped by single underscores. The white space that
  \<^verbatim>\<open>int\<close> drops is narrower than that of \<^verbatim>\<open>str.strip\<close>: below 256 it is the code
  points 9 to 13, the space, and the two non-ASCII spaces 0x85 and 0xA0; the separators
  0x1C to 0x1F are not dropped, and a string with one of them raises. A literal of more
  than 4300 digits raises as well (the default of CPython's limit on the conversion;
  underscores do not count, leading zeros do). \<^verbatim>\<open>int\<close> of a boolean or an integer is its
  value; \<^verbatim>\<open>None\<close>, a tuple and a dict raise \<^verbatim>\<open>TypeError\<close>.
\<close>

definition is_space :: "char \<Rightarrow> bool" where
  "is_space c = (let n = (of_char c :: nat) in (9 \<le> n \<and> n \<le> 13) \<or> n = 32 \<or> n = 133 \<or> n = 160)"

definition is_digit :: "char \<Rightarrow> bool" where
  "is_digit c = (let n = (of_char c :: nat) in 48 \<le> n \<and> n \<le> 57)"

definition digit_val :: "char \<Rightarrow> nat" where
  "digit_val c = of_char c - 48"

definition strip :: "string \<Rightarrow> string" where
  "strip s = rev (dropWhile is_space (rev (dropWhile is_space s)))"

fun parse_digits :: "nat \<Rightarrow> string \<Rightarrow> nat option" where
  "parse_digits acc [] = Some acc"
| "parse_digits acc [c] = (if is_digit c then Some (10 * acc + digit_val c) else None)"
| "parse_digits acc (c # d # cs) =
     (if is_digit c then parse_digits (10 * acc + digit_val c) (d # cs)
      else if c = CHR ''_'' \<and> is_digit d then parse_digits (10 * acc + digit_val d) cs
      else None)"

definition max_str_digits :: nat where
  "max_str_digits = 4300"

fun parse_unsigned :: "string \<Rightarrow> nat option" where
  "parse_unsigned [] = None"
| "parse_unsigned (c # cs) =
     (if is_digit c \<and> length (filter is_digit (c # cs)) \<le> max_str_digits
      then parse_digits (digit_val c) cs else None)"

definition parse_int :: "string \<Rightarrow> int option" where
  "parse_int s =
     (case strip s of
        [] \<Rightarrow> None
      | c # cs \<Rightarrow>
          if c = CHR ''-'' then map_option (\<lambda>n. - int n) (parse_unsigned cs)
          else if c = CHR ''+'' then map_option int (parse_unsigned cs)
          else map_option int (parse_unsigned (c # cs)))"

fun py_int :: "pyval \<Rightarrow> py_error + int" where
  "py_int (PInt i) = Inr i"
| "py_int (PBool b) = Inr (if b then 1 else 0)"
| "py_int (PStr s) = (case parse_int s of None \<Rightarrow> Inl ValueError | Some i \<Rightarrow> Inr i)"
| "py_int v = Inl TypeError"

text \<open>A dict is not hashable, and a tuple is when its items are.\<close>

fun py_hashable :: "pyval \<Rightarrow> bool" where
  "py_hashable (PDict d) = False"
| "py_hashable (PTuple xs) = list_all py_hashable xs"
| "py_hashable v = True"

text \<open>\<^verbatim>\<open>x == False\<close>: among the values of the model only \<^verbatim>\<open>False\<close> and \<^verbatim>\<open>0\<close> are equal to it.\<close>

fun eq_False :: "pyval \<Rightarrow> bool" where
  "eq_False (PBool b) = (\<not> b)"
| "eq_False (PInt i) = (i = 0)"
| "eq_False v = False"

text \<open>
  \<^verbatim>\<open>table.get(key)\<close> on a dict whose keys are strings: only a string can be equal to
  a key.
\<close>

fun dict_get :: "(string \<times> 'a) list \<Rightarrow> pyval \<Rightarrow> 'a option" where
  "dict_get table (PStr s) = map_of table s"
| "dict_get table v = None"

section \<open>Library functions the module imports\<close>

subsection \<open>\<^verbatim>\<open>itertools.combinations\<close>\<close>

text \<open>
  The \<^verbatim>\<open>r\<close>-length subsequences of the items, as tuples, in lexicographic order of the
  chosen positions.
\<close>

fun combinations :: "'a list \<Rightarrow> nat \<Rightarrow> 'a list list" where
  "combinations xs 0 = [[]]"
| "combinations [] (Suc r) = []"
| "combinations (x # xs) (Suc r) = map ((#) x) (combinations xs r) @ combinations xs (Suc r)"

subsection \<open>\<^verbatim>\<open>numpy.zeros\<close> and \<^verbatim>\<open>numpy.put\<close>\<close>

text \<open>
  An array is the list of its entries; an entry, a 64-bit float in numpy, is a real
  number here. \<^verbatim>\<open>put(a, ind, v)\<close> runs in its default mode \<^verbatim>\<open>'raise'\<close>. It first turns
  the list of indices into an array of machine words, which raises \<^verbatim>\<open>OverflowError\<close> for
  an index that does not fit 64 bits. Then it walks the indices in order and stores the
  value of the same position: an index \<open>i\<close> with \<open>- n \<le> i < 0\<close>, for an array of \<open>n\<close>
  entries, counts from the end (\<open>adjust\<close>), and an index outside \<open>- n \<le> i < n\<close> raises
  \<^verbatim>\<open>IndexError\<close>. The module calls \<^verbatim>\<open>put\<close> with as many values as indices, so the reuse
  of values that numpy does for a shorter list of values never happens; the second
  equation of the loop ends both lists at once.
\<close>

definition zeros :: "nat \<Rightarrow> real list" where
  "zeros n = replicate n 0"

definition adjust :: "nat \<Rightarrow> int \<Rightarrow> int" where
  "adjust n i = (if i < 0 then i + int n else i)"

fun put_loop :: "real list \<Rightarrow> int list \<Rightarrow> real list \<Rightarrow> py_error + real list" where
  "put_loop a (i # ind) (w # v) =
     (let n = length a in
      if i < - int n \<or> int n \<le> i then Inl IndexError
      else put_loop (a[nat (adjust n i) := w]) ind v)"
| "put_loop a ind v = Inr a"

definition fits_intp :: "int \<Rightarrow> bool" where
  "fits_intp i = (- (2 ^ 63) \<le> i \<and> i < 2 ^ 63)"

definition put :: "real list \<Rightarrow> int list \<Rightarrow> real list \<Rightarrow> py_error + real list" where
  "put a ind v = (if list_all fits_intp ind then put_loop a ind v else Inl OverflowError)"

subsection \<open>\<^verbatim>\<open>datasketch\<close>\<close>

text \<open>
  The sketch engine is a library outside the repository, and the spec leaves its
  internals out of scope. Its objects are modelled by what they are given: a
  \<^verbatim>\<open>MinHash\<close> by its number of permutations and the byte strings passed to \<^verbatim>\<open>update\<close>,
  in call order; a \<^verbatim>\<open>WeightedMinHashGenerator\<close> by its dimension and sample size; the
  sketch that the generator's \<^verbatim>\<open>minhash\<close> returns by the generator and the vector it is
  called on. \<^verbatim>\<open>minhash\<close> raises \<^verbatim>\<open>ValueError\<close> for a vector whose length is not the
  generator's dimension and for a vector of zeros only. What else the engine computes or
  rejects is not modelled. A number of permutations or samples is a natural number.
\<close>

record minhash_obj =
  num_perm :: nat
  updates :: "string list"

definition MinHash :: "nat \<Rightarrow> minhash_obj" where
  "MinHash n = \<lparr>num_perm = n, updates = []\<rparr>"

definition update :: "minhash_obj \<Rightarrow> string \<Rightarrow> minhash_obj" where
  "update h b = h\<lparr>updates := updates h @ [b]\<rparr>"

record generator =
  dim :: nat
  sample_size :: nat

definition WeightedMinHashGenerator :: "nat \<Rightarrow> nat \<Rightarrow> generator" where
  "WeightedMinHashGenerator d s = \<lparr>dim = d, sample_size = s\<rparr>"

datatype weighted_minhash = WeightedMinHash generator "real list"

definition minhash :: "generator \<Rightarrow> real list \<Rightarrow> py_error + weighted_minhash" where
  "minhash g v =
     (if length v \<noteq> dim g then Inl ValueError
      else if list_all (\<lambda>x. x = 0) v then Inl ValueError
      else Inr (WeightedMinHash g v))"

section \<open>The module\<close>

subsection \<open>\<^verbatim>\<open>flatten_tree\<close>\<close>

text \<open>
  \<^verbatim>\<open>for k, v in d.items()\<close> is the recursion over the items; \<^verbatim>\<open>result\<close> is the list
  built so far. A branch, a tuple in the source, is the list of its items.
\<close>

fun flatten_tree :: "pydict \<Rightarrow> pyval list \<Rightarrow> pyval list list" where
  "flatten_tree [] keys = []"
| "flatten_tree ((k, v) # d) keys =
     (case v of
        PDict d' \<Rightarrow> flatten_tree d' (keys @ [k])
      | _ \<Rightarrow> [keys @ [k, v]])
     @ flatten_tree d keys"

subsection \<open>\<^verbatim>\<open>class SimilarityHashing\<close>\<close>

datatype hash_method = Set_hashing | Sequence_hashing | Tree_hashing | Weighted_set_hashing

text \<open>
  The attributes of an instance. \<^verbatim>\<open>__init__\<close> sets the last two only for the structure
  \<^verbatim>\<open>'weighted_set'\<close>: \<open>None\<close> is an attribute the instance does not have.
\<close>

record encoder =
  structure_name :: pyval
  structure_function :: hash_method
  num_hash :: nat
  weighted_set_option :: "nat option"
  weighted_hash_gen :: "generator option"

definition structures :: "(string \<times> hash_method) list" where
  "structures =
     [(''set'', Set_hashing), (''sequence'', Sequence_hashing),
      (''tree'', Tree_hashing), (''weighted_set'', Weighted_set_hashing)]"

definition weighted_set_options :: "(string \<times> nat) list" where
  "weighted_set_options = [(''ports'', 65536), (''english'', 100), (''sfc'', 10)]"

text \<open>The message lists the names in apostrophes, written \<open>CHR 0x27\<close> here.\<close>

definition unsupported_structure :: py_error where
  "unsupported_structure =
     Exception (''Unsupported structure! please use one of the following: ['' @
       join '', '' (map (\<lambda>s. [CHR 0x27] @ s @ [CHR 0x27]) [''set'', ''sequence'', ''tree'', ''weighted_set''])
       @ '']'')"

text \<open>The default of the parameter \<^verbatim>\<open>weighted_option\<close> is the string \<^verbatim>\<open>'None'\<close>.\<close>

definition default_weighted_option :: pyval where
  "default_weighted_option = PStr ''None''"

definition SimilarityHashing :: "pyval \<Rightarrow> nat \<Rightarrow> pyval \<Rightarrow> py_error + encoder" where
  "SimilarityHashing structure sz weighted_option =
     (if \<not> py_hashable structure then Inl TypeError
      else case dict_get structures structure of
        None \<Rightarrow> Inl unsupported_structure
      | Some f \<Rightarrow>
          let self = \<lparr>structure_name = structure, structure_function = f, num_hash = sz,
                       weighted_set_option = None, weighted_hash_gen = None\<rparr>;
              sample_sz = sz
          in if structure = PStr ''weighted_set'' then
               if eq_False weighted_option then
                 Inl (Exception ''need to determine support for weighted hashing'')
               else if \<not> py_hashable weighted_option then Inl TypeError
               else case dict_get weighted_set_options weighted_option of
                 Some d \<Rightarrow>
                   Inr (self\<lparr>weighted_set_option := Some d,
                              weighted_hash_gen := Some (WeightedMinHashGenerator d sample_sz)\<rparr>)
               | None \<Rightarrow> Inl (Exception ''unsupported option for weighted sets'')
             else Inr self)"

definition set_hashing :: "encoder \<Rightarrow> pyval list \<Rightarrow> minhash_obj" where
  "set_hashing self data =
     fold (\<lambda>obj hash_gen. update hash_gen (encode_utf8 (py_str obj))) data
       (MinHash (num_hash self))"

text \<open>The list comprehension \<^verbatim>\<open>[int(key) for key in data.keys()]\<close>: the first key that fails ends it.\<close>

fun int_keys :: "pyval list \<Rightarrow> py_error + int list" where
  "int_keys [] = Inr []"
| "int_keys (key # keys) =
     (case py_int key of
        Inl e \<Rightarrow> Inl e
      | Inr i \<Rightarrow> (case int_keys keys of Inl e \<Rightarrow> Inl e | Inr ind \<Rightarrow> Inr (i # ind)))"

text \<open>The weights of the input are numbers, taken as the floats numpy stores.\<close>

definition weighted_set_hashing :: "encoder \<Rightarrow> (pyval \<times> real) list \<Rightarrow> py_error + weighted_minhash" where
  "weighted_set_hashing self data =
     (case weighted_set_option self of
        None \<Rightarrow> Inl AttributeError
      | Some n \<Rightarrow>
          (case int_keys (map fst data) of
             Inl e \<Rightarrow> Inl e
           | Inr ind \<Rightarrow>
               (case put (zeros n) ind (map snd data) of
                  Inl e \<Rightarrow> Inl e
                | Inr vector \<Rightarrow>
                    (case weighted_hash_gen self of
                       None \<Rightarrow> Inl AttributeError
                     | Some g \<Rightarrow> minhash g vector))))"

definition sequence_hashing :: "encoder \<Rightarrow> pyval list \<Rightarrow> minhash_obj" where
  "sequence_hashing self data = set_hashing self (map PTuple (combinations data 2))"

text \<open>What \<^verbatim>\<open>tree_hashing\<close> and \<^verbatim>\<open>hash_data\<close> return: a sketch, or the empty list.\<close>

datatype hash_value =
    MinHashValue minhash_obj
  | WeightedMinHashValue weighted_minhash
  | EmptyList

definition tree_hashing :: "encoder \<Rightarrow> pydict \<Rightarrow> py_error + hash_value" where
  "tree_hashing self data =
     (let root_lst = map fst data in
      if length root_lst = 0 then Inr EmptyList
      else if length root_lst > 1 then Inl (Exception ''A tree has only 1 root node!'')
      else
        let list_of_sequences = flatten_tree data [];
            list_of_pairs = concat (map (\<lambda>branch. map PTuple (combinations branch 2)) list_of_sequences)
        in Inr (MinHashValue (set_hashing self list_of_pairs)))"

text \<open>
  \<^verbatim>\<open>hash_data\<close> calls the method that \<^verbatim>\<open>__init__\<close> stored. The input is typed by the
  structure it is for: the items of a collection or a sequence, a nested dict, or a dict of
  weights. The model gives no result (\<open>None\<close>) for an input of another kind than the
  encoder's structure takes.
\<close>

datatype py_data =
    Items "pyval list"
  | Tree pydict
  | Weights "(pyval \<times> real) list"

definition hash_data :: "encoder \<Rightarrow> py_data \<Rightarrow> (py_error + hash_value) option" where
  "hash_data self data =
     (case (structure_function self, data) of
        (Set_hashing, Items xs) \<Rightarrow> Some (Inr (MinHashValue (set_hashing self xs)))
      | (Sequence_hashing, Items xs) \<Rightarrow> Some (Inr (MinHashValue (sequence_hashing self xs)))
      | (Tree_hashing, Tree d) \<Rightarrow> Some (tree_hashing self d)
      | (Weighted_set_hashing, Weights d) \<Rightarrow>
          Some (map_sum id WeightedMinHashValue (weighted_set_hashing self d))
      | _ \<Rightarrow> None)"

section \<open>Definitions from the specification, and example inputs\<close>

text \<open>
  The specification's ``all 2-combinations in original relative order'': every pair of
  positions \<open>i < j\<close>, the earlier item first, the pairs ordered by \<open>i\<close> and then by \<open>j\<close>.
\<close>

definition ordered_pairs :: "'a list \<Rightarrow> 'a list list" where
  "ordered_pairs xs =
     concat (map (\<lambda>i. map (\<lambda>j. [xs ! i, xs ! j]) [Suc i..<length xs]) [0..<length xs])"

text \<open>
  The specification's Branch of a tree: the keys met on a path from the root, in order,
  followed by the terminal leaf value. \<open>is_branch d b\<close> follows the keys of \<open>b\<close> down the
  nested dict \<open>d\<close>: every key but the last must lead to a nested mapping, the last key to
  a value that is no mapping, and that value is the last item of \<open>b\<close>.
\<close>

fun is_branch :: "pydict \<Rightarrow> pyval list \<Rightarrow> bool" where
  "is_branch d [] = False"
| "is_branch d [x] = False"
| "is_branch d [k, leaf] = (case map_of d k of Some v \<Rightarrow> \<not> is_dict v \<and> v = leaf | None \<Rightarrow> False)"
| "is_branch d (k # k' # x # xs) =
     (case map_of d k of Some (PDict d') \<Rightarrow> is_branch d' (k' # x # xs) | _ \<Rightarrow> False)"

text \<open>The tree and the instance of the module's demonstration: \<^verbatim>\<open>SimilarityHashing('tree', size=4096)\<close>.\<close>

definition demo_tree :: pydict where
  "demo_tree =
     [(PInt 1, PDict [(PInt 9, PInt 10),
                      (PInt 2, PDict [(PInt 3, PInt 6)]),
                      (PInt 4, PDict [(PInt 5, PDict [(PInt 7, PInt 8)])])])]"

definition tree_encoder :: encoder where
  "tree_encoder =
     \<lparr>structure_name = PStr ''tree'', structure_function = Tree_hashing, num_hash = 4096,
      weighted_set_option = None, weighted_hash_gen = None\<rparr>"

text \<open>The instance \<^verbatim>\<open>SimilarityHashing('weighted_set', size=64, weighted_option='sfc')\<close>.\<close>

definition sfc_encoder :: encoder where
  "sfc_encoder =
     \<lparr>structure_name = PStr ''weighted_set'', structure_function = Weighted_set_hashing,
      num_hash = 64, weighted_set_option = Some 10,
      weighted_hash_gen = Some (WeightedMinHashGenerator 10 64)\<rparr>"

section \<open>The sketch a run of \<^verbatim>\<open>set_hashing\<close> builds, and the pairs of \<^verbatim>\<open>combinations\<close>\<close>

lemma fold_update:
  "fold (\<lambda>obj hash_gen. update hash_gen (f obj)) data h = h\<lparr>updates := updates h @ map f data\<rparr>"
  by (induction data arbitrary: h) (simp_all add: update_def)

lemma set_hashing_log:
  "set_hashing self data =
     \<lparr>num_perm = num_hash self, updates = map (\<lambda>obj. encode_utf8 (py_str obj)) data\<rparr>"
  by (simp add: set_hashing_def fold_update MinHash_def)

lemma combinations_one: "combinations xs (Suc 0) = map (\<lambda>x. [x]) xs"
  by (induction xs) simp_all

lemma ordered_pairs_Cons:
  "ordered_pairs (x # xs) = map (\<lambda>y. [x, y]) xs @ ordered_pairs xs"
proof -
  let ?n = "length xs"
  define F where "F = (\<lambda>i. map (\<lambda>j. [(x # xs) ! i, (x # xs) ! j]) [Suc i..<Suc ?n])"
  have first: "F 0 = map (\<lambda>y. [x, y]) xs"
  proof -
    have "F 0 = map (\<lambda>j. [x, xs ! j]) [0..<?n]"
      unfolding F_def by (simp add: map_Suc_upt [symmetric] del: upt_Suc)
    also have "\<dots> = map (\<lambda>y. [x, y]) (map ((!) xs) [0..<?n])"
      by simp
    finally show ?thesis by (simp add: map_nth)
  qed
  have rest: "map F (map Suc [0..<?n]) = map (\<lambda>i. map (\<lambda>j. [xs ! i, xs ! j]) [Suc i..<?n]) [0..<?n]"
    unfolding F_def by (simp add: map_Suc_upt [symmetric] del: upt_Suc)
  have upt0: "[0..<Suc ?n] = 0 # map Suc [0..<?n]"
    by (simp add: upt_conv_Cons map_Suc_upt del: upt_Suc)
  have "ordered_pairs (x # xs) = concat (map F [0..<Suc ?n])"
    unfolding ordered_pairs_def F_def by (simp del: upt_Suc)
  also have "\<dots> = F 0 @ concat (map F (map Suc [0..<?n]))"
    by (simp only: upt0 list.map concat.simps)
  also have "\<dots> = map (\<lambda>y. [x, y]) xs @ ordered_pairs xs"
    by (simp only: first rest ordered_pairs_def)
  finally show ?thesis .
qed

lemma combinations_two: "combinations xs 2 = ordered_pairs xs"
proof (induction xs)
  case Nil
  show ?case by (simp add: ordered_pairs_def numeral_2_eq_2)
next
  case (Cons x xs)
  then show ?case
    by (simp add: numeral_2_eq_2 combinations_one ordered_pairs_Cons)
qed

lemma length_ordered_pairs: "length (ordered_pairs xs) = length xs choose 2"
proof (induction xs)
  case Nil
  show ?case by (simp add: ordered_pairs_def)
next
  case (Cons x xs)
  then show ?case by (simp add: ordered_pairs_Cons numeral_2_eq_2)
qed

lemma set_ordered_pairs:
  "set (ordered_pairs xs) = (\<Union>i\<in>{0..<length xs}. (\<lambda>j. [xs ! i, xs ! j]) ` {Suc i..<length xs})"
  unfolding ordered_pairs_def by simp

lemma in_ordered_pairs:
  "p \<in> set (ordered_pairs xs) \<longleftrightarrow> (\<exists>i j. i < j \<and> j < length xs \<and> p = [xs ! i, xs ! j])"
proof
  assume "p \<in> set (ordered_pairs xs)"
  then obtain i where i: "i \<in> {0..<length xs}" "p \<in> (\<lambda>j. [xs ! i, xs ! j]) ` {Suc i..<length xs}"
    unfolding set_ordered_pairs by (rule UN_E)
  from i(2) obtain j where j: "j \<in> {Suc i..<length xs}" "p = [xs ! i, xs ! j]"
    by (rule imageE)
  from j have "i < j \<and> j < length xs \<and> p = [xs ! i, xs ! j]"
    by simp
  then show "\<exists>i j. i < j \<and> j < length xs \<and> p = [xs ! i, xs ! j]"
    by (intro exI)
next
  assume "\<exists>i j. i < j \<and> j < length xs \<and> p = [xs ! i, xs ! j]"
  then obtain i j where ij: "i < j" "j < length xs" "p = [xs ! i, xs ! j]"
    by (elim exE conjE)
  then have i: "i \<in> {0..<length xs}" and j: "j \<in> {Suc i..<length xs}"
    by simp_all
  have "p \<in> (\<lambda>j. [xs ! i, xs ! j]) ` {Suc i..<length xs}"
    using ij(3) j by (rule image_eqI [where x = j])
  with i show "p \<in> set (ordered_pairs xs)"
    unfolding set_ordered_pairs by (rule UN_I)
qed

lemma ordered_pairs_no_reverse:
  assumes "distinct xs" and "[x, y] \<in> set (ordered_pairs xs)"
  shows "[y, x] \<notin> set (ordered_pairs xs)"
proof
  assume "[y, x] \<in> set (ordered_pairs xs)"
  then obtain i j where ij: "i < j" "j < length xs" "y = xs ! i" "x = xs ! j"
    by (auto simp: in_ordered_pairs)
  from assms(2) obtain k l where kl: "k < l" "l < length xs" "x = xs ! k" "y = xs ! l"
    by (auto simp: in_ordered_pairs)
  from ij kl assms(1) have "j = k" and "i = l"
    by (simp_all add: nth_eq_iff_index_eq)
  with ij kl show False by simp
qed

lemma image_mset_concat_map:
  "image_mset f (mset (concat (map g bs))) = (\<Sum>b\<in>#mset bs. image_mset f (mset (g b)))"
  by (induction bs) simp_all

section \<open>Flattening a tree\<close>

lemma is_branch_head:
  "is_branch ((k, v) # d) (k # p) = (case v of PDict d' \<Rightarrow> is_branch d' p | _ \<Rightarrow> p = [v])"
proof (cases p)
  case Nil
  then show ?thesis by (cases v) simp_all
next
  case (Cons x xs)
  then show ?thesis by (cases xs; cases v) auto
qed

lemma is_branch_other:
  "k0 \<noteq> k \<Longrightarrow> is_branch ((k, v) # d) (k0 # p) = is_branch d (k0 # p)"
proof (cases p)
  case Nil
  then show ?thesis by simp
next
  case (Cons x xs)
  assume "k0 \<noteq> k"
  with Cons show ?thesis by (cases xs) simp_all
qed

lemma is_branch_key:
  assumes "is_branch d p"
  obtains k0 p' where "p = k0 # p'" and "k0 \<in> fst ` set d"
proof (cases p)
  case Nil
  with assms show ?thesis by simp
next
  case (Cons k0 p')
  have "map_of d k0 \<noteq> None"
  proof (cases p')
    case Nil
    with Cons assms show ?thesis by simp
  next
    case (Cons x xs)
    with \<open>p = k0 # p'\<close> assms show ?thesis
      by (cases xs) (auto split: option.splits)
  qed
  then have "k0 \<in> fst ` set d"
    by (simp add: map_of_eq_None_iff)
  with Cons that show ?thesis by blast
qed

lemma flatten_tree_append:
  "flatten_tree (d1 @ d2) keys = flatten_tree d1 keys @ flatten_tree d2 keys"
  by (induction d1 keys rule: flatten_tree.induct) simp_all

lemma flatten_tree_prefix:
  "flatten_tree d keys = map ((@) keys) (flatten_tree d [])"
proof (induction d arbitrary: keys rule: wf_dict.induct)
  case 1
  show ?case by simp
next
  case (2 k v d)
  show ?case
  proof (cases v)
    case (PDict d')
    have "flatten_tree d' (keys @ [k]) = map ((@) (keys @ [k])) (flatten_tree d' [])"
      by (rule "2.IH"(1) [OF PDict])
    moreover have "flatten_tree d' [k] = map ((@) [k]) (flatten_tree d' [])"
      by (rule "2.IH"(1) [OF PDict])
    moreover have "flatten_tree d keys = map ((@) keys) (flatten_tree d [])"
      by (rule "2.IH"(2))
    ultimately show ?thesis
      using PDict by simp
  qed (simp_all add: "2.IH"(2) [of keys])
qed


lemma count_list_prefix:
  "count_list (map ((@) keys) xs) (keys @ p) = count_list xs p"
  by (induction xs) simp_all

lemma count_list_no_prefix:
  "\<not> (\<exists>p. b = keys @ p) \<Longrightarrow> count_list (map ((@) keys) xs) b = 0"
  by (induction xs) auto

lemma flatten_tree_count_root:
  "wf_dict d \<Longrightarrow> count_list (flatten_tree d []) b = (if is_branch d b then 1 else 0)"
proof (induction d arbitrary: b rule: wf_dict.induct)
  case 1
  have "\<not> is_branch [] b"
    by (auto elim: is_branch_key)
  then show ?case by simp
next
  case (2 k v d)
  from "2.prems" have fresh: "k \<notin> fst ` set d" and wf: "wf_dict d"
    by simp_all
  define H where "H = (case v of PDict d' \<Rightarrow> flatten_tree d' [k] | _ \<Rightarrow> [[k, v]])"
  have split: "count_list (flatten_tree ((k, v) # d) []) b =
      count_list H b + count_list (flatten_tree d []) b"
    by (cases v) (simp_all add: H_def)
  have rest: "count_list (flatten_tree d []) c = (if is_branch d c then 1 else 0)" for c
    using wf by (rule "2.IH"(2))
  have head: "count_list H (k # p) = (if is_branch ((k, v) # d) (k # p) then 1 else 0)" for p
  proof (cases v)
    case (PDict d')
    with "2.prems" have "wf_dict d'" by simp
    then have "count_list (flatten_tree d' []) p = (if is_branch d' p then 1 else 0)"
      by (rule "2.IH"(1) [OF PDict])
    moreover have "count_list H (k # p) = count_list (flatten_tree d' []) p"
      using count_list_prefix [of "[k]" "flatten_tree d' []" p]
      by (simp add: H_def PDict flatten_tree_prefix [of d' "[k]"])
    ultimately show ?thesis
      by (simp add: is_branch_head PDict)
  qed (auto simp: H_def is_branch_head)
  have other: "count_list H (k0 # p) = 0" if "k0 \<noteq> k" for k0 p
  proof (cases v)
    case (PDict d')
    have "\<not> (\<exists>q. k0 # p = [k] @ q)"
      using that by simp
    then have "count_list (map ((@) [k]) (flatten_tree d' [])) (k0 # p) = 0"
      by (rule count_list_no_prefix)
    then show ?thesis
      by (simp add: H_def PDict flatten_tree_prefix [of d' "[k]"])
  qed (use that in \<open>simp_all add: H_def\<close>)
  have empty: "count_list H [] = 0"
  proof (cases v)
    case (PDict d')
    have "\<not> (\<exists>q. [] = [k] @ q)"
      by simp
    then have "count_list (map ((@) [k]) (flatten_tree d' [])) [] = 0"
      by (rule count_list_no_prefix)
    then show ?thesis
      by (simp add: H_def PDict flatten_tree_prefix [of d' "[k]"])
  qed (simp_all add: H_def)
  show ?case
  proof (cases b)
    case Nil
    with split empty rest [of "[]"] show ?thesis by simp
  next
    case (Cons k0 p)
    show ?thesis
    proof (cases "k0 = k")
      case True
      have "\<not> is_branch d (k # p)"
        using fresh by (auto elim: is_branch_key)
      with split head [of p] rest [of "k # p"] Cons True show ?thesis
        by simp
    next
      case False
      with split other [of k0 p] rest [of "k0 # p"] Cons show ?thesis
        by (simp add: is_branch_other)
    qed
  qed
qed

text \<open>
  Claim C1. For a nested dict (keys pairwise different at every level, as in every Python
  dict) \<^verbatim>\<open>flatten_tree\<close> returns each Branch of the dict exactly once and nothing else:
  a tuple occurs once in the result when it is the accumulated keys followed by the keys
  of a root-to-leaf path and the leaf value, and not at all otherwise. The accumulator is
  a value that each call extends for itself (\<^verbatim>\<open>keys + [k]\<close> builds a new list and the
  source never mutates \<^verbatim>\<open>keys\<close>): the result for accumulated \<open>keys\<close> is the result for
  the empty accumulator with \<open>keys\<close> put in front of every branch, and the branches of the
  items of a dict are those of any first part of the items followed by those of the
  rest, so no item's branches depend on its siblings.
\<close>

theorem flatten_tree_branches:
  assumes "wf_dict d"
  shows "(\<forall>b. count_list (flatten_tree d keys) b =
            (if \<exists>p. b = keys @ p \<and> is_branch d p then 1 else 0)) \<and>
         flatten_tree d keys = map ((@) keys) (flatten_tree d []) \<and>
         (\<forall>d1 d2. d = d1 @ d2 \<longrightarrow>
            flatten_tree d keys = flatten_tree d1 keys @ flatten_tree d2 keys)"
proof (intro conjI allI impI)
  fix b
  show "count_list (flatten_tree d keys) b = (if \<exists>p. b = keys @ p \<and> is_branch d p then 1 else 0)"
  proof (cases "\<exists>p. b = keys @ p")
    case True
    then obtain p where p: "b = keys @ p" ..
    have "count_list (flatten_tree d keys) b = count_list (flatten_tree d []) p"
      unfolding p by (subst flatten_tree_prefix) (rule count_list_prefix)
    also have "\<dots> = (if is_branch d p then 1 else 0)"
      using assms by (rule flatten_tree_count_root)
    finally show ?thesis
      by (simp add: p)
  next
    case False
    then have "count_list (map ((@) keys) (flatten_tree d [])) b = 0"
      by (rule count_list_no_prefix)
    then have "count_list (flatten_tree d keys) b = 0"
      by (simp only: flatten_tree_prefix [of d keys])
    with False show ?thesis
      by auto
  qed
next
  show "flatten_tree d keys = map ((@) keys) (flatten_tree d [])"
    by (rule flatten_tree_prefix)
next
  fix d1 d2
  assume "d = d1 @ d2"
  then show "flatten_tree d keys = flatten_tree d1 keys @ flatten_tree d2 keys"
    by (simp only: flatten_tree_append)
qed

theorem flatten_tree_branches_witness:
  "wf_dict demo_tree \<and>
   flatten_tree demo_tree [] =
     [[PInt 1, PInt 9, PInt 10], [PInt 1, PInt 2, PInt 3, PInt 6],
      [PInt 1, PInt 4, PInt 5, PInt 7, PInt 8]] \<and>
   is_branch demo_tree [PInt 1, PInt 2, PInt 3, PInt 6] \<and>
   count_list (flatten_tree demo_tree []) [PInt 1, PInt 2, PInt 3, PInt 6] = 1 \<and>
   \<not> is_branch demo_tree [PInt 1, PInt 2, PInt 3] \<and>
   count_list (flatten_tree demo_tree []) [PInt 1, PInt 2, PInt 3] = 0"
proof -
  have wf: "wf_dict demo_tree"
    by (simp add: demo_tree_def)
  have yes: "is_branch demo_tree [PInt 1, PInt 2, PInt 3, PInt 6]"
    and no: "\<not> is_branch demo_tree [PInt 1, PInt 2, PInt 3]"
    by (simp_all add: demo_tree_def)
  from flatten_tree_branches [OF wf, of "[]"]
  have count: "count_list (flatten_tree demo_tree []) b = (if is_branch demo_tree b then 1 else 0)" for b
    by simp
  have "flatten_tree demo_tree [] =
     [[PInt 1, PInt 9, PInt 10], [PInt 1, PInt 2, PInt 3, PInt 6],
      [PInt 1, PInt 4, PInt 5, PInt 7, PInt 8]]"
    by (simp add: demo_tree_def)
  with wf yes no count [of "[PInt 1, PInt 2, PInt 3, PInt 6]"] count [of "[PInt 1, PInt 2, PInt 3]"]
  show ?thesis
    by simp
qed

section \<open>Construction\<close>

lemma dict_get_structures:
  "dict_get structures structure = None \<longleftrightarrow>
     structure \<notin> {PStr ''set'', PStr ''sequence'', PStr ''tree'', PStr ''weighted_set''}"
  by (cases "structure") (auto simp: structures_def)

lemma dict_get_options:
  "dict_get weighted_set_options weighted_option = None \<longleftrightarrow>
     weighted_option \<notin> {PStr ''ports'', PStr ''english'', PStr ''sfc''}"
  by (cases weighted_option) (auto simp: weighted_set_options_def)

lemma init_not_weighted:
  "structure \<noteq> PStr ''weighted_set'' \<Longrightarrow>
   SimilarityHashing structure sz weighted_option =
     (if \<not> py_hashable structure then Inl TypeError
      else case dict_get structures structure of
        None \<Rightarrow> Inl unsupported_structure
      | Some f \<Rightarrow> Inr \<lparr>structure_name = structure, structure_function = f, num_hash = sz,
                       weighted_set_option = None, weighted_hash_gen = None\<rparr>)"
  by (simp add: SimilarityHashing_def split: option.split)

lemma init_weighted:
  "SimilarityHashing (PStr ''weighted_set'') sz weighted_option =
     (if eq_False weighted_option then Inl (Exception ''need to determine support for weighted hashing'')
      else if \<not> py_hashable weighted_option then Inl TypeError
      else case dict_get weighted_set_options weighted_option of
        Some d \<Rightarrow>
          Inr \<lparr>structure_name = PStr ''weighted_set'', structure_function = Weighted_set_hashing,
               num_hash = sz, weighted_set_option = Some d,
               weighted_hash_gen = Some (WeightedMinHashGenerator d sz)\<rparr>
      | None \<Rightarrow> Inl (Exception ''unsupported option for weighted sets''))"
  by (simp add: SimilarityHashing_def structures_def split: option.split)

text \<open>
  Claim C6. \<^verbatim>\<open>__init__\<close> takes the configuration only, so it runs before any data is
  seen. It raises for a structure that is none of the four names; for the structure
  \<^verbatim>\<open>'weighted_set'\<close> it raises when the weighted option is none of \<^verbatim>\<open>'ports'\<close>,
  \<^verbatim>\<open>'english'\<close>, \<^verbatim>\<open>'sfc'\<close>, and so also when the option is left out (its default is the
  string \<^verbatim>\<open>'None'\<close>). For the structures \<^verbatim>\<open>'set'\<close>, \<^verbatim>\<open>'sequence'\<close> and \<^verbatim>\<open>'tree'\<close>, and
  for \<^verbatim>\<open>'weighted_set'\<close> with one of the three options, it returns an instance.
\<close>

theorem init_validates:
  "(structure \<notin> {PStr ''set'', PStr ''sequence'', PStr ''tree'', PStr ''weighted_set''} \<longrightarrow>
      (\<exists>e. SimilarityHashing structure sz weighted_option = Inl e)) \<and>
   (weighted_option \<notin> {PStr ''ports'', PStr ''english'', PStr ''sfc''} \<longrightarrow>
      (\<exists>e. SimilarityHashing (PStr ''weighted_set'') sz weighted_option = Inl e)) \<and>
   SimilarityHashing (PStr ''weighted_set'') sz default_weighted_option =
      Inl (Exception ''unsupported option for weighted sets'') \<and>
   (structure \<in> {PStr ''set'', PStr ''sequence'', PStr ''tree''} \<longrightarrow>
      (\<exists>enc. SimilarityHashing structure sz weighted_option = Inr enc)) \<and>
   (weighted_option \<in> {PStr ''ports'', PStr ''english'', PStr ''sfc''} \<longrightarrow>
      (\<exists>enc. SimilarityHashing (PStr ''weighted_set'') sz weighted_option = Inr enc))"
proof (intro conjI impI)
  assume "structure \<notin> {PStr ''set'', PStr ''sequence'', PStr ''tree'', PStr ''weighted_set''}"
  then have "dict_get structures structure = None"
    by (simp add: dict_get_structures)
  then show "\<exists>e. SimilarityHashing structure sz weighted_option = Inl e"
    by (simp add: SimilarityHashing_def)
next
  assume "weighted_option \<notin> {PStr ''ports'', PStr ''english'', PStr ''sfc''}"
  then have "dict_get weighted_set_options weighted_option = None"
    by (simp add: dict_get_options)
  then show "\<exists>e. SimilarityHashing (PStr ''weighted_set'') sz weighted_option = Inl e"
    by (simp add: init_weighted)
next
  show "SimilarityHashing (PStr ''weighted_set'') sz default_weighted_option =
      Inl (Exception ''unsupported option for weighted sets'')"
    by (simp add: init_weighted default_weighted_option_def weighted_set_options_def)
next
  assume "structure \<in> {PStr ''set'', PStr ''sequence'', PStr ''tree''}"
  then show "\<exists>enc. SimilarityHashing structure sz weighted_option = Inr enc"
    by (auto simp: init_not_weighted structures_def)
next
  assume "weighted_option \<in> {PStr ''ports'', PStr ''english'', PStr ''sfc''}"
  then show "\<exists>enc. SimilarityHashing (PStr ''weighted_set'') sz weighted_option = Inr enc"
    by (auto simp: init_weighted weighted_set_options_def)
qed

theorem init_validates_witness:
  "PStr ''graph'' \<notin> {PStr ''set'', PStr ''sequence'', PStr ''tree'', PStr ''weighted_set''} \<and>
   PStr ''hebrew'' \<notin> {PStr ''ports'', PStr ''english'', PStr ''sfc''} \<and>
   PStr ''tree'' \<in> {PStr ''set'', PStr ''sequence'', PStr ''tree''} \<and>
   PStr ''sfc'' \<in> {PStr ''ports'', PStr ''english'', PStr ''sfc''} \<and>
   SimilarityHashing (PStr ''graph'') 64 (PStr ''sfc'') = Inl unsupported_structure \<and>
   SimilarityHashing (PStr ''weighted_set'') 64 (PStr ''hebrew'') =
     Inl (Exception ''unsupported option for weighted sets'') \<and>
   SimilarityHashing (PStr ''tree'') 4096 (PStr ''hebrew'') = Inr tree_encoder \<and>
   SimilarityHashing (PStr ''weighted_set'') 64 (PStr ''sfc'') = Inr sfc_encoder"
  using init_validates [of "PStr ''graph''" 64 "PStr ''sfc''"]
    init_validates [of "PStr ''tree''" 4096 "PStr ''hebrew''"]
    init_validates [of "PStr ''tree''" 64 "PStr ''hebrew''"]
    init_validates [of "PStr ''tree''" 64 "PStr ''sfc''"]
  by (simp add: init_weighted init_not_weighted structures_def weighted_set_options_def
      tree_encoder_def sfc_encoder_def)

text \<open>
  Claim C10. For a structure other than \<^verbatim>\<open>'weighted_set'\<close> the weighted option is not
  looked at: \<^verbatim>\<open>__init__\<close> gives the same result for any two options; for \<^verbatim>\<open>'set'\<close>,
  \<^verbatim>\<open>'sequence'\<close> and \<^verbatim>\<open>'tree'\<close> it returns one and the same instance whatever the option;
  and two instances built with different options return the same from \<^verbatim>\<open>hash_data\<close> on
  every input.
\<close>

theorem weighted_option_ignored:
  "structure \<noteq> PStr ''weighted_set'' \<longrightarrow>
     SimilarityHashing structure sz w1 = SimilarityHashing structure sz w2 \<and>
     (structure \<in> {PStr ''set'', PStr ''sequence'', PStr ''tree''} \<longrightarrow>
        (\<exists>enc. \<forall>w. SimilarityHashing structure sz w = Inr enc)) \<and>
     (\<forall>e1 e2 data. SimilarityHashing structure sz w1 = Inr e1 \<and>
                    SimilarityHashing structure sz w2 = Inr e2 \<longrightarrow>
        hash_data e1 data = hash_data e2 data)"
proof (intro impI conjI)
  assume ne: "structure \<noteq> PStr ''weighted_set''"
  show same: "SimilarityHashing structure sz w1 = SimilarityHashing structure sz w2"
    by (simp only: init_not_weighted [OF ne])
  show "\<forall>e1 e2 data. SimilarityHashing structure sz w1 = Inr e1 \<and>
                    SimilarityHashing structure sz w2 = Inr e2 \<longrightarrow>
        hash_data e1 data = hash_data e2 data"
  proof (intro allI impI)
    fix e1 e2 data
    assume both: "SimilarityHashing structure sz w1 = Inr e1 \<and> SimilarityHashing structure sz w2 = Inr e2"
    have "Inr e1 = SimilarityHashing structure sz w1"
      using both by simp
    also have "\<dots> = SimilarityHashing structure sz w2"
      by (rule same)
    also have "\<dots> = Inr e2"
      using both by simp
    finally have "Inr e1 = (Inr e2 :: py_error + encoder)" .
    then have "e1 = e2" by (rule Inr_inject)
    then show "hash_data e1 data = hash_data e2 data" by (rule arg_cong)
  qed
  assume "structure \<in> {PStr ''set'', PStr ''sequence'', PStr ''tree''}"
  then show "\<exists>enc. \<forall>w. SimilarityHashing structure sz w = Inr enc"
    by (auto simp: init_not_weighted structures_def)
qed

theorem weighted_option_ignored_witness:
  "PStr ''tree'' \<noteq> PStr ''weighted_set'' \<and>
   SimilarityHashing (PStr ''tree'') 4096 (PStr ''ports'') = Inr tree_encoder \<and>
   SimilarityHashing (PStr ''tree'') 4096 (PBool False) = Inr tree_encoder \<and>
   SimilarityHashing (PStr ''tree'') 4096 (PDict []) = Inr tree_encoder \<and>
   hash_data tree_encoder (Tree [(PInt 1, PInt 2)]) =
     Some (Inr (MinHashValue \<lparr>num_perm = 4096, updates = [''(1, 2)'']\<rparr>))"
  using weighted_option_ignored [of "PStr ''tree''" 4096 "PStr ''ports''" "PBool False"]
    weighted_option_ignored [of "PStr ''tree''" 4096 "PStr ''ports''" "PDict []"]
  by (simp add: init_not_weighted structures_def tree_encoder_def tree_hashing_def hash_data_def
      set_hashing_log numeral_2_eq_2 encode_utf8_def dec_int_def dec_nat.simps digit_char_def)

section \<open>Set encoding\<close>

text \<open>
  Claim C9. \<^verbatim>\<open>set_hashing\<close> turns every element of the input into its token, the UTF-8
  bytes of \<^verbatim>\<open>str(obj)\<close>, and gives the tokens, one per element and so with the
  duplicates, to a \<^verbatim>\<open>MinHash\<close> made with the instance's number of permutations; the
  bag of the tokens passed is the image of the bag of the elements. The instance that
  \<^verbatim>\<open>SimilarityHashing('set', size)\<close> builds has \<open>size\<close> as that number, and its
  \<^verbatim>\<open>hash_data\<close> is this method. Tokens are byte strings, compared as such.
\<close>

theorem set_hashing_tokens:
  "set_hashing self data =
     \<lparr>num_perm = num_hash self, updates = map (\<lambda>obj. encode_utf8 (py_str obj)) data\<rparr> \<and>
   mset (updates (set_hashing self data)) = image_mset (\<lambda>obj. encode_utf8 (py_str obj)) (mset data) \<and>
   length (updates (set_hashing self data)) = length data \<and>
   (\<exists>enc. SimilarityHashing (PStr ''set'') sz weighted_option = Inr enc \<and> num_hash enc = sz \<and>
          hash_data enc (Items data) = Some (Inr (MinHashValue (set_hashing enc data))))"
  by (simp add: set_hashing_log SimilarityHashing_def structures_def hash_data_def)

section \<open>Sequence encoding\<close>

text \<open>
  Claim C3. \<^verbatim>\<open>sequence_hashing\<close> passes to \<^verbatim>\<open>set_hashing\<close> the pairs of
  \<^verbatim>\<open>combinations(data, 2)\<close>, which are the pairs of the specification: one pair for every
  two positions \<open>i < j\<close>, the item at \<open>i\<close> first, \<open>n choose 2\<close> of them for \<open>n\<close> items. When
  the items are pairwise different, no pair occurs reversed. For \<open>[a, b, c]\<close> the pairs
  are \<open>(a, b)\<close>, \<open>(a, c)\<close>, \<open>(b, c)\<close>.
\<close>

theorem sequence_hashing_pairs:
  "sequence_hashing self data = set_hashing self (map PTuple (ordered_pairs data)) \<and>
   combinations data 2 = ordered_pairs data \<and>
   length (combinations data 2) = length data choose 2 \<and>
   (\<forall>p. p \<in> set (combinations data 2) \<longleftrightarrow>
        (\<exists>i j. i < j \<and> j < length data \<and> p = [data ! i, data ! j])) \<and>
   (distinct data \<longrightarrow> (\<forall>x y. [x, y] \<in> set (combinations data 2) \<longrightarrow> [y, x] \<notin> set (combinations data 2))) \<and>
   combinations [a, b, c] 2 = [[a, b], [a, c], [b, c]]"
proof (intro conjI)
  show "sequence_hashing self data = set_hashing self (map PTuple (ordered_pairs data))"
    by (simp only: sequence_hashing_def combinations_two)
  show "combinations data 2 = ordered_pairs data"
    by (rule combinations_two)
  show "length (combinations data 2) = length data choose 2"
    by (simp only: combinations_two length_ordered_pairs)
  show "\<forall>p. p \<in> set (combinations data 2) \<longleftrightarrow>
        (\<exists>i j. i < j \<and> j < length data \<and> p = [data ! i, data ! j])"
    unfolding combinations_two by (rule allI) (rule in_ordered_pairs)
  show "distinct data \<longrightarrow>
        (\<forall>x y. [x, y] \<in> set (combinations data 2) \<longrightarrow> [y, x] \<notin> set (combinations data 2))"
    unfolding combinations_two using ordered_pairs_no_reverse [of data] by blast
  show "combinations [a, b, c] 2 = [[a, b], [a, c], [b, c]]"
    by (simp add: numeral_2_eq_2)
qed

theorem sequence_hashing_pairs_witness:
  "distinct [PInt 1, PInt 2, PInt 3] \<and>
   [PInt 1, PInt 2] \<in> set (combinations [PInt 1, PInt 2, PInt 3] 2) \<and>
   [PInt 2, PInt 1] \<notin> set (combinations [PInt 1, PInt 2, PInt 3] 2) \<and>
   updates (sequence_hashing tree_encoder [PInt 1, PInt 2, PInt 3]) = [''(1, 2)'', ''(1, 3)'', ''(2, 3)'']"
  using sequence_hashing_pairs [of tree_encoder "[PInt 1, PInt 2, PInt 3]" PNone PNone PNone]
  by (simp add: numeral_2_eq_2 ordered_pairs_Cons ordered_pairs_def set_hashing_log
      encode_utf8_def dec_int_def dec_nat.simps digit_char_def)

section \<open>Tree encoding\<close>

text \<open>
  Claim C8. For the structure \<^verbatim>\<open>'tree'\<close>, encoding the empty mapping returns the empty
  list: the call raises nothing, and what it returns is not a sketch. This holds for
  \<^verbatim>\<open>tree_hashing\<close> on every instance, and for \<^verbatim>\<open>hash_data\<close> on the instance that
  \<^verbatim>\<open>SimilarityHashing('tree', size)\<close> builds, whatever the size and the weighted option.
\<close>

theorem tree_hashing_empty:
  "tree_hashing self [] = Inr EmptyList \<and>
   (\<exists>enc. SimilarityHashing (PStr ''tree'') sz weighted_option = Inr enc \<and>
          hash_data enc (Tree []) = Some (Inr EmptyList)) \<and>
   (\<forall>h. EmptyList \<noteq> MinHashValue h) \<and> (\<forall>w. EmptyList \<noteq> WeightedMinHashValue w)"
  by (simp add: tree_hashing_def SimilarityHashing_def structures_def hash_data_def)

text \<open>
  Claim C7. A tree input with more than one top-level key makes \<^verbatim>\<open>tree_hashing\<close>, and
  \<^verbatim>\<open>hash_data\<close> on an instance for trees, raise the exception ``A tree has only 1 root
  node!''; no sketch is returned.
\<close>

theorem tree_hashing_many_roots:
  "1 < length data \<Longrightarrow>
   tree_hashing self data = Inl (Exception ''A tree has only 1 root node!'') \<and>
   (structure_function self = Tree_hashing \<longrightarrow>
      hash_data self (Tree data) = Some (Inl (Exception ''A tree has only 1 root node!'')))"
  by (cases data) (simp_all add: tree_hashing_def hash_data_def)

theorem tree_hashing_many_roots_witness:
  "1 < length [(PInt 1, PNone), (PInt 2, PNone)] \<and>
   structure_function tree_encoder = Tree_hashing \<and>
   hash_data tree_encoder (Tree [(PInt 1, PNone), (PInt 2, PNone)]) =
     Some (Inl (Exception ''A tree has only 1 root node!''))"
  using tree_hashing_many_roots [of "[(PInt 1, PNone), (PInt 2, PNone)]" tree_encoder]
  by (simp add: tree_encoder_def)

text \<open>
  Claim C2. For an input with one top-level key, \<^verbatim>\<open>tree_hashing\<close> takes the branches of
  \<^verbatim>\<open>flatten_tree\<close>, forms for each branch its 2-combinations in the branch's order, pools
  the pairs of all branches in one list and passes that list to \<^verbatim>\<open>set_hashing\<close>: the
  bag of tokens the sketch receives is the sum, over the branches, of the tokens of the
  branch's pairs. A branch \<open>(k1, k2, k3, leaf)\<close> gives the six pairs listed.
\<close>

theorem tree_hashing_single_root:
  "length data = 1 \<Longrightarrow>
   tree_hashing self data =
     Inr (MinHashValue (set_hashing self
       (concat (map (\<lambda>branch. map PTuple (ordered_pairs branch)) (flatten_tree data []))))) \<and>
   (\<exists>h. tree_hashing self data = Inr (MinHashValue h) \<and> num_perm h = num_hash self \<and>
        mset (updates h) =
          (\<Sum>branch\<in>#mset (flatten_tree data []).
              image_mset (\<lambda>pair. encode_utf8 (py_str (PTuple pair))) (mset (ordered_pairs branch)))) \<and>
   combinations [k1, k2, k3, leaf] 2 =
     [[k1, k2], [k1, k3], [k1, leaf], [k2, k3], [k2, leaf], [k3, leaf]]"
proof -
  assume one: "length data = 1"
  let ?pairs = "concat (map (\<lambda>branch. map PTuple (ordered_pairs branch)) (flatten_tree data []))"
  have call: "tree_hashing self data = Inr (MinHashValue (set_hashing self ?pairs))"
    using one by (cases data) (simp_all add: tree_hashing_def combinations_two)
  have "mset (updates (set_hashing self ?pairs)) =
      image_mset (\<lambda>obj. encode_utf8 (py_str obj)) (mset ?pairs)"
    by (simp add: set_hashing_log)
  also have "\<dots> = (\<Sum>branch\<in>#mset (flatten_tree data []).
              image_mset (\<lambda>pair. encode_utf8 (py_str (PTuple pair))) (mset (ordered_pairs branch)))"
    by (simp only: image_mset_concat_map) (simp add: multiset.map_comp comp_def)
  finally have pool: "mset (updates (set_hashing self ?pairs)) =
      (\<Sum>branch\<in>#mset (flatten_tree data []).
              image_mset (\<lambda>pair. encode_utf8 (py_str (PTuple pair))) (mset (ordered_pairs branch)))" .
  have "combinations [k1, k2, k3, leaf] 2 =
     [[k1, k2], [k1, k3], [k1, leaf], [k2, k3], [k2, leaf], [k3, leaf]]"
    by (simp add: numeral_2_eq_2)
  with call pool show ?thesis
    by (simp add: set_hashing_log)
qed

theorem tree_hashing_single_root_witness:
  "length demo_tree = 1 \<and>
   tree_hashing tree_encoder demo_tree =
     Inr (MinHashValue \<lparr>num_perm = 4096, updates =
       [''(1, 9)'', ''(1, 10)'', ''(9, 10)'',
        ''(1, 2)'', ''(1, 3)'', ''(1, 6)'', ''(2, 3)'', ''(2, 6)'', ''(3, 6)'',
        ''(1, 4)'', ''(1, 5)'', ''(1, 7)'', ''(1, 8)'', ''(4, 5)'', ''(4, 7)'', ''(4, 8)'',
        ''(5, 7)'', ''(5, 8)'', ''(7, 8)'']\<rparr>)"
  using tree_hashing_single_root [of demo_tree tree_encoder PNone PNone PNone PNone]
  by (simp add: demo_tree_def tree_encoder_def ordered_pairs_Cons ordered_pairs_def set_hashing_log
      encode_utf8_def dec_int_def dec_nat.simps digit_char_def)

section \<open>Weighted set encoding\<close>

lemma int_keys_parsed:
  "(\<forall>key\<in>set keys. \<exists>i. py_int key = Inr i) \<Longrightarrow>
   int_keys keys = Inr (map (\<lambda>key. projr (py_int key)) keys)"
  by (induction keys) auto

lemma int_keys_error:
  "key \<in> set keys \<Longrightarrow> py_int key = Inl e \<Longrightarrow> \<exists>e'. int_keys keys = Inl e'"
  by (induction keys) (auto split: sum.splits)

lemma int_keys_Inr:
  assumes "int_keys keys = Inr ind"
  shows "(\<forall>key\<in>set keys. \<exists>i. py_int key = Inr i) \<and> ind = map (\<lambda>key. projr (py_int key)) keys"
proof -
  have parsed: "\<exists>i. py_int key = Inr i" if "key \<in> set keys" for key
  proof (cases "py_int key")
    case (Inl e)
    with that int_keys_error [of key keys e] assms show ?thesis by auto
  next
    case (Inr i)
    then show ?thesis by blast
  qed
  then have "int_keys keys = Inr (map (\<lambda>key. projr (py_int key)) keys)"
    by (intro int_keys_parsed) blast
  with assms parsed show ?thesis by simp
qed

lemma zip_parsed:
  "zip (map f (map fst data)) (map snd data) = map (\<lambda>(key, w). (f key, w)) data"
  by (induction data) auto

lemma map_of_last_write:
  assumes "i \<notin> fst ` set ys"
  shows "map_of (rev (xs @ (i, w) # ys)) i = Some w"
proof -
  have "map_of (rev ys) i = None"
    using assms by (simp add: map_of_eq_None_iff)
  then show ?thesis
    by (simp add: map_add_def)
qed

lemma adjust_range:
  "- int n \<le> i \<Longrightarrow> i < int n \<Longrightarrow> 0 \<le> adjust n i \<and> adjust n i < int n"
  by (simp add: adjust_def)

lemma put_loop_in_range:
  "\<forall>i\<in>set ind. - int (length a) \<le> i \<and> i < int (length a) \<Longrightarrow> length ind = length v \<Longrightarrow>
   \<exists>a'. put_loop a ind v = Inr a' \<and> length a' = length a \<and>
        (\<forall>j<length a. a' ! j =
           (case map_of (rev (zip (map (adjust (length a)) ind) v)) (int j) of
              None \<Rightarrow> a ! j
            | Some w \<Rightarrow> w))"
proof (induction a ind v rule: put_loop.induct)
  case (1 a i ind w v)
  define n where "n = length a"
  define a1 where "a1 = a[nat (adjust n i) := w]"
  from "1.prems" have i: "- int n \<le> i" "i < int n"
    by (simp_all add: n_def)
  then have pos: "0 \<le> adjust n i" "adjust n i < int n"
    using adjust_range [of n i] by simp_all
  have len: "length a1 = n"
    by (simp add: a1_def n_def)
  have at: "a1 ! j = (if adjust n i = int j then w else a ! j)" if "j < n" for j
    using pos that by (auto simp: a1_def n_def nth_list_update)
  have step: "put_loop a (i # ind) (w # v) = put_loop a1 ind v"
    using i by (simp add: Let_def a1_def n_def)
  have "\<forall>i\<in>set ind. - int (length a1) \<le> i \<and> i < int (length a1)"
    using "1.prems"(1) len by (simp add: n_def)
  moreover have "length ind = length v"
    using "1.prems"(2) by simp
  moreover have "\<not> (i < - int n \<or> int n \<le> i)"
    using i by simp
  ultimately have "\<exists>a'. put_loop a1 ind v = Inr a' \<and> length a' = length a1 \<and>
        (\<forall>j<length a1. a' ! j =
           (case map_of (rev (zip (map (adjust (length a1)) ind) v)) (int j) of
              None \<Rightarrow> a1 ! j
            | Some w \<Rightarrow> w))"
    unfolding a1_def n_def by (intro "1.IH" [OF refl])
  then obtain a' where a': "put_loop a1 ind v = Inr a'" "length a' = n"
      "\<forall>j<n. a' ! j =
         (case map_of (rev (zip (map (adjust n) ind) v)) (int j) of None \<Rightarrow> a1 ! j | Some w \<Rightarrow> w)"
    unfolding len by blast
  have "a' ! j =
      (case map_of (rev (zip (map (adjust n) (i # ind)) (w # v))) (int j) of
         None \<Rightarrow> a ! j
       | Some w \<Rightarrow> w)"
    if j: "j < n" for j
  proof -
    have "a' ! j =
        (case map_of (rev (zip (map (adjust n) ind) v)) (int j) of None \<Rightarrow> a1 ! j | Some w \<Rightarrow> w)"
      using a'(3) j by simp
    then show ?thesis
      using at [OF j] by (auto simp: map_add_def split: option.split)
  qed
  with step a'(1,2) show ?case
    by (simp add: n_def)
qed simp_all

lemma put_loop_out_of_range:
  "i \<in> set ind \<Longrightarrow> i < - int (length a) \<or> int (length a) \<le> i \<Longrightarrow> length ind = length v \<Longrightarrow>
   put_loop a ind v = Inl IndexError"
proof (induction a ind v rule: put_loop.induct)
  case (1 a i' ind w v)
  show ?case
  proof (cases "i' < - int (length a) \<or> int (length a) \<le> i'")
    case True
    then show ?thesis by (simp add: Let_def)
  next
    case False
    with "1.prems" have "i \<in> set ind" by auto
    moreover have "length ind = length v" using "1.prems" by simp
    ultimately have "put_loop (a[nat (adjust (length a) i') := w]) ind v = Inl IndexError"
      using "1.IH" [OF refl] False "1.prems"(2) by simp
    with False show ?thesis by (simp add: Let_def)
  qed
qed simp_all

lemma put_out_of_range:
  assumes "i \<in> set ind" and "i < - int (length a) \<or> int (length a) \<le> i"
    and "length ind = length v"
  shows "put a ind v = (if list_all fits_intp ind then Inl IndexError else Inl OverflowError)"
  using put_loop_out_of_range [OF assms] by (simp add: put_def)


lemma weighted_set_hashing_accepts:
  assumes dim: "weighted_set_option self = Some n"
    and gen: "weighted_hash_gen self = Some g"
    and small: "int n \<le> 2 ^ 63"
    and keys: "\<forall>key\<in>fst ` set data. \<exists>i. py_int key = Inr i \<and> - int n \<le> i \<and> i < int n"
  shows "\<exists>vector. weighted_set_hashing self data = minhash g vector \<and> length vector = n \<and>
    (\<forall>j<n. vector ! j =
       (case map_of (rev (map (\<lambda>(key, w). (adjust n (projr (py_int key)), w)) data)) (int j) of
          None \<Rightarrow> 0
        | Some w \<Rightarrow> w)) \<and>
    (\<forall>before key w after. data = before @ (key, w) # after \<and>
         adjust n (projr (py_int key)) \<notin> (\<lambda>key'. adjust n (projr (py_int key'))) ` fst ` set after \<longrightarrow>
       vector ! nat (adjust n (projr (py_int key))) = w)"
proof -
  let ?ind = "map (\<lambda>key. projr (py_int key)) (map fst data)"
  let ?entries = "map (\<lambda>(key, w). (adjust n (projr (py_int key)), w)) data"
  have parsed: "int_keys (map fst data) = Inr ?ind"
    using keys by (intro int_keys_parsed) auto
  have range: "\<forall>i\<in>set ?ind. - int (length (zeros n)) \<le> i \<and> i < int (length (zeros n))"
    using keys by (auto simp: zeros_def)
  have "fits_intp i" if "i \<in> set ?ind" for i
  proof -
    from that range have "- int n \<le> i \<and> i < int n"
      by (auto simp: zeros_def)
    then have "- int n \<le> i" and "i < int n"
      by simp_all
    with small show ?thesis
      by (simp add: fits_intp_def)
  qed
  then have words: "list_all fits_intp ?ind"
    unfolding list_all_iff by blast
  have "length ?ind = length (map snd data)"
    by simp
  with range obtain vector where vector: "put_loop (zeros n) ?ind (map snd data) = Inr vector"
      "length vector = length (zeros n)"
      "\<forall>j<length (zeros n). vector ! j =
         (case map_of (rev (zip (map (adjust (length (zeros n))) ?ind) (map snd data))) (int j) of
            None \<Rightarrow> zeros n ! j
          | Some w \<Rightarrow> w)"
    using put_loop_in_range [of ?ind "zeros n" "map snd data"] by blast
  have len: "length vector = n"
    using vector(2) by (simp add: zeros_def)
  have zipped: "zip (map (adjust n) ?ind) (map snd data) = ?entries"
  proof -
    have "map (adjust n) ?ind = map (\<lambda>key. adjust n (projr (py_int key))) (map fst data)"
      by simp
    then show ?thesis
      by (simp only: zip_parsed)
  qed
  have at: "vector ! j = (case map_of (rev ?entries) (int j) of None \<Rightarrow> 0 | Some w \<Rightarrow> w)"
    if "j < n" for j
  proof -
    have "length (zeros n) = n"
      by (simp add: zeros_def)
    with vector(3) that zipped
    have "vector ! j = (case map_of (rev ?entries) (int j) of None \<Rightarrow> zeros n ! j | Some w \<Rightarrow> w)"
      by simp
    with that show ?thesis
      by (simp add: zeros_def split: option.split)
  qed
  have call: "weighted_set_hashing self data = minhash g vector"
    using dim gen parsed vector(1) words by (simp add: weighted_set_hashing_def put_def)
  have last: "vector ! nat (adjust n (projr (py_int key))) = w"
    if split: "data = before @ (key, w) # after"
      and later: "adjust n (projr (py_int key)) \<notin>
          (\<lambda>key'. adjust n (projr (py_int key'))) ` fst ` set after"
    for before key w after
  proof -
    let ?p = "adjust n (projr (py_int key))"
    have "key \<in> fst ` set data"
      using split by force
    with keys have "- int n \<le> projr (py_int key)" "projr (py_int key) < int n"
      by auto
    then have pos: "0 \<le> ?p" "?p < int n"
      using adjust_range by simp_all
    have entries: "?entries = map (\<lambda>(key, w). (adjust n (projr (py_int key)), w)) before @
        (?p, w) # map (\<lambda>(key, w). (adjust n (projr (py_int key)), w)) after"
      by (simp add: split)
    have "?p \<notin> fst ` set (map (\<lambda>(key, w). (adjust n (projr (py_int key)), w)) after)"
      using later by force
    then have "map_of (rev ?entries) ?p = Some w"
      unfolding entries by (rule map_of_last_write)
    moreover have "vector ! nat ?p = (case map_of (rev ?entries) (int (nat ?p)) of None \<Rightarrow> 0 | Some w \<Rightarrow> w)"
      using pos by (intro at) simp
    ultimately show ?thesis
      using pos by simp
  qed
  from call len at last show ?thesis
    by blast
qed


lemma init_weighted_fields:
  assumes "SimilarityHashing (PStr ''weighted_set'') sz weighted_option = Inr self"
    and "weighted_set_option self = Some n"
  shows "dict_get weighted_set_options weighted_option = Some n"
    and "weighted_hash_gen self = Some (WeightedMinHashGenerator n sz)"
    and "int n \<le> 2 ^ 63"
proof -
  from assms show opt: "dict_get weighted_set_options weighted_option = Some n"
    and "weighted_hash_gen self = Some (WeightedMinHashGenerator n sz)"
    by (auto simp: init_weighted split: if_splits option.splits)
  from opt have "n \<in> {65536, 100, 10}"
    by (cases weighted_option) (auto simp: weighted_set_options_def split: if_splits)
  then show "int n \<le> 2 ^ 63"
    by auto
qed

text \<open>
  Claim C5. On an instance built for \<^verbatim>\<open>'weighted_set'\<close>, whose dimension \<open>n\<close> is the one the
  weighted option names, an input whose keys all parse to indices in \<open>0 \<le> i < n\<close> gives a
  vector of \<open>n\<close> entries: the entry at \<open>j\<close> is the weight of the last item of the input
  whose key parses to \<open>j\<close>, and zero when there is none; so an item that no later item
  overwrites has its weight at its index. The result of the call is the result of
  \<^verbatim>\<open>minhash\<close>, of the generator that \<^verbatim>\<open>__init__\<close> made with the dimension and the size, on
  that vector: the sketch, unless the vector has zeros only, which the generator rejects.
\<close>

theorem weighted_set_hashing_vector:
  assumes init: "SimilarityHashing (PStr ''weighted_set'') sz weighted_option = Inr self"
    and dim: "weighted_set_option self = Some n"
    and keys: "\<forall>key\<in>fst ` set data. \<exists>i. py_int key = Inr i \<and> 0 \<le> i \<and> i < int n"
  shows "dict_get weighted_set_options weighted_option = Some n \<and>
    weighted_hash_gen self = Some (WeightedMinHashGenerator n sz) \<and>
    (\<exists>vector. weighted_set_hashing self data = minhash (WeightedMinHashGenerator n sz) vector \<and>
       length vector = n \<and>
       (\<forall>j<n. vector ! j =
          (case map_of (rev (map (\<lambda>(key, w). (projr (py_int key), w)) data)) (int j) of
             None \<Rightarrow> 0
           | Some w \<Rightarrow> w)) \<and>
       (\<forall>before key w after. data = before @ (key, w) # after \<and>
            projr (py_int key) \<notin> (\<lambda>key'. projr (py_int key')) ` fst ` set after \<longrightarrow>
          vector ! nat (projr (py_int key)) = w) \<and>
       (\<not> list_all (\<lambda>x. x = 0) vector \<longrightarrow>
          weighted_set_hashing self data =
            Inr (WeightedMinHash (WeightedMinHashGenerator n sz) vector)))"
proof -
  note fields = init_weighted_fields [OF init dim]
  have same: "adjust n (projr (py_int key)) = projr (py_int key)" if "key \<in> fst ` set data" for key
    using keys that by (auto simp: adjust_def)
  have entries: "map (\<lambda>(key, w). (adjust n (projr (py_int key)), w)) data =
      map (\<lambda>(key, w). (projr (py_int key), w)) data"
    by (rule map_cong [OF refl]) (use same in force)
  have "\<forall>key\<in>fst ` set data. \<exists>i. py_int key = Inr i \<and> - int n \<le> i \<and> i < int n"
    using keys by force
  from weighted_set_hashing_accepts [OF dim fields(2) fields(3) this]
  obtain vector where vector:
    "weighted_set_hashing self data = minhash (WeightedMinHashGenerator n sz) vector"
    "length vector = n"
    "\<forall>j<n. vector ! j =
       (case map_of (rev (map (\<lambda>(key, w). (projr (py_int key), w)) data)) (int j) of
          None \<Rightarrow> 0
        | Some w \<Rightarrow> w)"
    "\<forall>before key w after. data = before @ (key, w) # after \<and>
         adjust n (projr (py_int key)) \<notin> (\<lambda>key'. adjust n (projr (py_int key'))) ` fst ` set after \<longrightarrow>
       vector ! nat (adjust n (projr (py_int key))) = w"
    unfolding entries by blast
  have last: "vector ! nat (projr (py_int key)) = w"
    if split: "data = before @ (key, w) # after"
      and later: "projr (py_int key) \<notin> (\<lambda>key'. projr (py_int key')) ` fst ` set after"
    for before key w after
  proof -
    have here: "key \<in> fst ` set data"
      using split by force
    have "adjust n (projr (py_int key)) \<notin> (\<lambda>key'. adjust n (projr (py_int key'))) ` fst ` set after"
    proof
      assume "adjust n (projr (py_int key)) \<in> (\<lambda>key'. adjust n (projr (py_int key'))) ` fst ` set after"
      then obtain key' where key': "key' \<in> fst ` set after"
          "adjust n (projr (py_int key)) = adjust n (projr (py_int key'))"
        by blast
      from key'(1) have "key' \<in> fst ` set data"
        using split by force
      with key'(2) here have "projr (py_int key) = projr (py_int key')"
        by (simp add: same)
      with key'(1) later show False
        by blast
    qed
    with vector(4) split have "vector ! nat (adjust n (projr (py_int key))) = w"
      by blast
    with here show ?thesis
      by (simp add: same)
  qed
  have sketch: "weighted_set_hashing self data =
      Inr (WeightedMinHash (WeightedMinHashGenerator n sz) vector)"
    if "\<not> list_all (\<lambda>x. x = 0) vector"
    using that vector(1,2) by (simp add: minhash_def WeightedMinHashGenerator_def)
  from fields(1,2) vector(1,2,3) last sketch show ?thesis
    by blast
qed

theorem weighted_set_hashing_vector_witness:
  "SimilarityHashing (PStr ''weighted_set'') 64 (PStr ''sfc'') = Inr sfc_encoder \<and>
   weighted_set_option sfc_encoder = Some 10 \<and>
   py_int (PStr ''1'') = Inr 1 \<and> py_int (PStr ''2'') = Inr 2 \<and> py_int (PStr ''01'') = Inr 1 \<and>
   weighted_set_hashing sfc_encoder [(PStr ''1'', 5), (PStr ''2'', 2), (PStr ''01'', 7)] =
     Inr (WeightedMinHash \<lparr>dim = 10, sample_size = 64\<rparr> [0, 7, 2, 0, 0, 0, 0, 0, 0, 0])"
proof -
  have init: "SimilarityHashing (PStr ''weighted_set'') 64 (PStr ''sfc'') = Inr sfc_encoder"
    by (simp add: init_weighted weighted_set_options_def sfc_encoder_def WeightedMinHashGenerator_def)
  have dim: "weighted_set_option sfc_encoder = Some 10"
    by (simp add: sfc_encoder_def)
  have ints: "py_int (PStr ''1'') = Inr 1" "py_int (PStr ''2'') = Inr 2" "py_int (PStr ''01'') = Inr 1"
    by (simp_all add: parse_int_def strip_def is_space_def is_digit_def digit_val_def max_str_digits_def)
  have keys: "\<forall>key\<in>fst ` set [(PStr ''1'', 5::real), (PStr ''2'', 2), (PStr ''01'', 7)].
      \<exists>i. py_int key = Inr i \<and> 0 \<le> i \<and> i < int 10"
    using ints by simp
  from weighted_set_hashing_vector [OF init dim keys]
  obtain vector where
    "weighted_set_hashing sfc_encoder [(PStr ''1'', 5), (PStr ''2'', 2), (PStr ''01'', 7)] =
       minhash (WeightedMinHashGenerator 10 64) vector"
    by blast
  moreover have "weighted_set_hashing sfc_encoder [(PStr ''1'', 5), (PStr ''2'', 2), (PStr ''01'', 7)] =
     Inr (WeightedMinHash \<lparr>dim = 10, sample_size = 64\<rparr> [0, 7, 2, 0, 0, 0, 0, 0, 0, 0])"
    using ints
    by (simp add: weighted_set_hashing_def sfc_encoder_def zeros_def minhash_def put_def
        fits_intp_def adjust_def WeightedMinHashGenerator_def Let_def numeral_eq_Suc)
  ultimately show ?thesis
    using init dim ints by simp
qed

text \<open>
  Claim C4, as stated, fails: the key \<^verbatim>\<open>'-1'\<close> parses to the index \<open>-1\<close>, outside
  \<open>0 \<le> i < 10\<close>, and the call does not fail; \<^verbatim>\<open>put\<close> counts the index from the end and
  the weight lands in the last entry.
\<close>

theorem weighted_set_hashing_negative_index:
  "SimilarityHashing (PStr ''weighted_set'') 64 (PStr ''sfc'') = Inr sfc_encoder \<and>
   weighted_set_option sfc_encoder = Some 10 \<and>
   py_int (PStr ''-1'') = Inr (- 1) \<and>
   \<not> (0 \<le> (- 1 :: int) \<and> (- 1 :: int) < 10) \<and>
   weighted_set_hashing sfc_encoder [(PStr ''-1'', 3)] =
     Inr (WeightedMinHash \<lparr>dim = 10, sample_size = 64\<rparr> [0, 0, 0, 0, 0, 0, 0, 0, 0, 3])"
proof -
  have int: "py_int (PStr ''-1'') = Inr (- 1)"
    by (simp add: parse_int_def strip_def is_space_def is_digit_def digit_val_def max_str_digits_def)
  have "SimilarityHashing (PStr ''weighted_set'') 64 (PStr ''sfc'') = Inr sfc_encoder"
    by (simp add: init_weighted weighted_set_options_def sfc_encoder_def WeightedMinHashGenerator_def)
  moreover have "weighted_set_hashing sfc_encoder [(PStr ''-1'', 3)] =
     Inr (WeightedMinHash \<lparr>dim = 10, sample_size = 64\<rparr> [0, 0, 0, 0, 0, 0, 0, 0, 0, 3])"
    using int
    by (simp add: weighted_set_hashing_def sfc_encoder_def zeros_def minhash_def put_def
        fits_intp_def adjust_def WeightedMinHashGenerator_def Let_def numeral_eq_Suc)
  ultimately show ?thesis
    using int by (simp add: sfc_encoder_def)
qed

text \<open>
  Claim C4, amended. On an instance with dimension \<open>n\<close>, a key that \<^verbatim>\<open>int\<close> does not parse,
  or that parses to an index outside \<open>- n \<le> i < n\<close>, makes the whole call fail: the result
  is an error and no sketch is returned. When every key parses, the error is the
  \<^verbatim>\<open>IndexError\<close> of \<^verbatim>\<open>put\<close>, or its \<^verbatim>\<open>OverflowError\<close> when some index does not fit a
  machine word. Indices in \<open>- n \<le> i < 0\<close> are not rejected: when every key parses to an
  index in \<open>- n \<le> i < n\<close> (and \<open>n\<close> fits a machine word, as every configured dimension
  does), the vector is built and given to \<^verbatim>\<open>minhash\<close>, each weight at its index counted
  from the end when negative, so that an item with index \<open>i < 0\<close> that no later item
  overwrites has its weight at position \<open>n + i\<close>.
\<close>

theorem weighted_set_hashing_rejects:
  assumes dim: "weighted_set_option self = Some n"
  shows
    "((\<exists>key\<in>fst ` set data. (\<exists>e. py_int key = Inl e) \<or>
          projr (py_int key) < - int n \<or> int n \<le> projr (py_int key)) \<longrightarrow>
        (\<exists>e. weighted_set_hashing self data = Inl e) \<and>
        ((\<forall>key\<in>fst ` set data. \<exists>i. py_int key = Inr i) \<longrightarrow>
           weighted_set_hashing self data =
             (if list_all fits_intp (map (\<lambda>key. projr (py_int key)) (map fst data))
              then Inl IndexError else Inl OverflowError))) \<and>
     (weighted_hash_gen self = Some g \<and> int n \<le> 2 ^ 63 \<and>
      (\<forall>key\<in>fst ` set data. \<exists>i. py_int key = Inr i \<and> - int n \<le> i \<and> i < int n) \<longrightarrow>
        (\<exists>vector. weighted_set_hashing self data = minhash g vector \<and> length vector = n \<and>
           (\<forall>j<n. vector ! j =
              (case map_of (rev (map (\<lambda>(key, w). (adjust n (projr (py_int key)), w)) data)) (int j) of
                 None \<Rightarrow> 0
               | Some w \<Rightarrow> w)) \<and>
           (\<forall>before key w after. data = before @ (key, w) # after \<and>
                projr (py_int key) < 0 \<and>
                adjust n (projr (py_int key)) \<notin>
                  (\<lambda>key'. adjust n (projr (py_int key'))) ` fst ` set after \<longrightarrow>
              vector ! nat (int n + projr (py_int key)) = w)))"
proof -
  let ?ind = "map (\<lambda>key. projr (py_int key)) (map fst data)"
  have fails: "(\<exists>e. weighted_set_hashing self data = Inl e) \<and>
      ((\<forall>key\<in>fst ` set data. \<exists>i. py_int key = Inr i) \<longrightarrow>
         weighted_set_hashing self data =
           (if list_all fits_intp ?ind then Inl IndexError else Inl OverflowError))"
    if some: "\<exists>key\<in>fst ` set data. (\<exists>e. py_int key = Inl e) \<or>
      projr (py_int key) < - int n \<or> int n \<le> projr (py_int key)"
  proof -
  from some obtain key where key: "key \<in> fst ` set data"
    and bad: "(\<exists>e. py_int key = Inl e) \<or>
      projr (py_int key) < - int n \<or> int n \<le> projr (py_int key)"
    by blast
  show ?thesis
  proof (cases "int_keys (map fst data)")
    case (Inl e)
    then have "weighted_set_hashing self data = Inl e"
      using dim by (simp add: weighted_set_hashing_def)
    moreover have "\<not> (\<forall>key\<in>fst ` set data. \<exists>i. py_int key = Inr i)"
    proof
      assume "\<forall>key\<in>fst ` set data. \<exists>i. py_int key = Inr i"
      then have "int_keys (map fst data) = Inr ?ind"
        by (intro int_keys_parsed) simp
      with Inl show False by simp
    qed
    ultimately show ?thesis by blast
  next
    case (Inr ind)
    from int_keys_Inr [OF Inr]
    have parsed: "\<forall>key\<in>set (map fst data). \<exists>i. py_int key = Inr i"
      and ind: "ind = ?ind"
      by simp_all
    from parsed key have "\<not> (\<exists>e. py_int key = Inl e)"
      by auto
    with bad have range: "projr (py_int key) < - int (length (zeros n)) \<or>
        int (length (zeros n)) \<le> projr (py_int key)"
      by (simp add: zeros_def)
    have "projr (py_int key) \<in> set ind"
      using key ind by auto
    moreover have "length ind = length (map snd data)"
      using ind by simp
    ultimately have "put (zeros n) ind (map snd data) =
        (if list_all fits_intp ind then Inl IndexError else Inl OverflowError)"
      using range by (intro put_out_of_range)
    then have "weighted_set_hashing self data =
        (if list_all fits_intp ?ind then Inl IndexError else Inl OverflowError)"
      using dim Inr ind by (simp add: weighted_set_hashing_def)
    then show ?thesis by simp
  qed
  qed
  have accepts: "\<exists>vector. weighted_set_hashing self data = minhash g vector \<and> length vector = n \<and>
           (\<forall>j<n. vector ! j =
              (case map_of (rev (map (\<lambda>(key, w). (adjust n (projr (py_int key)), w)) data)) (int j) of
                 None \<Rightarrow> 0
               | Some w \<Rightarrow> w)) \<and>
           (\<forall>before key w after. data = before @ (key, w) # after \<and>
                projr (py_int key) < 0 \<and>
                adjust n (projr (py_int key)) \<notin>
                  (\<lambda>key'. adjust n (projr (py_int key'))) ` fst ` set after \<longrightarrow>
              vector ! nat (int n + projr (py_int key)) = w)"
    if ok: "weighted_hash_gen self = Some g \<and> int n \<le> 2 ^ 63 \<and>
      (\<forall>key\<in>fst ` set data. \<exists>i. py_int key = Inr i \<and> - int n \<le> i \<and> i < int n)"
  proof -
  from ok have gen: "weighted_hash_gen self = Some g" and small: "int n \<le> 2 ^ 63"
    and keys: "\<forall>key\<in>fst ` set data. \<exists>i. py_int key = Inr i \<and> - int n \<le> i \<and> i < int n"
    by simp_all
  from weighted_set_hashing_accepts [OF dim gen small keys]
  obtain vector where vector: "weighted_set_hashing self data = minhash g vector"
    "length vector = n"
    "\<forall>j<n. vector ! j =
       (case map_of (rev (map (\<lambda>(key, w). (adjust n (projr (py_int key)), w)) data)) (int j) of
          None \<Rightarrow> 0
        | Some w \<Rightarrow> w)"
    "\<forall>before key w after. data = before @ (key, w) # after \<and>
         adjust n (projr (py_int key)) \<notin> (\<lambda>key'. adjust n (projr (py_int key'))) ` fst ` set after \<longrightarrow>
       vector ! nat (adjust n (projr (py_int key))) = w"
    by blast
  have neg: "vector ! nat (int n + projr (py_int key)) = w"
    if "data = before @ (key, w) # after" and "projr (py_int key) < 0"
      and "adjust n (projr (py_int key)) \<notin> (\<lambda>key'. adjust n (projr (py_int key'))) ` fst ` set after"
    for before key w after
  proof -
    from vector(4) that(1,3) have "vector ! nat (adjust n (projr (py_int key))) = w"
      by blast
    moreover have "adjust n (projr (py_int key)) = int n + projr (py_int key)"
      using that(2) by (simp add: adjust_def)
    ultimately show ?thesis by simp
  qed
  from vector(1,2,3) neg show ?thesis
    by blast
  qed
  from fails accepts show ?thesis
    by blast
qed


theorem weighted_set_hashing_rejects_witness:
  "weighted_set_option sfc_encoder = Some 10 \<and>
   py_int (PStr ''10'') = Inr 10 \<and> py_int (PStr ''-11'') = Inr (- 11) \<and>
   py_int (PStr ''-1'') = Inr (- 1) \<and> py_int (PStr ''-10'') = Inr (- 10) \<and>
   py_int (PStr ''1.5'') = Inl ValueError \<and>
   py_int (PStr [CHR 0x1C, CHR ''5'']) = Inl ValueError \<and>
   py_int (PStr ''9223372036854775808'') = Inr (2 ^ 63) \<and>
   weighted_set_hashing sfc_encoder [(PStr ''1'', 1), (PStr ''10'', 2)] = Inl IndexError \<and>
   weighted_set_hashing sfc_encoder [(PStr ''-11'', 1)] = Inl IndexError \<and>
   weighted_set_hashing sfc_encoder [(PStr ''1'', 1), (PStr ''1.5'', 2)] = Inl ValueError \<and>
   weighted_set_hashing sfc_encoder [(PStr [CHR 0x1C, CHR ''5''], 1)] = Inl ValueError \<and>
   weighted_set_hashing sfc_encoder [(PStr ''9223372036854775808'', 1)] = Inl OverflowError \<and>
   weighted_set_hashing sfc_encoder [(PStr ''-1'', 3), (PStr ''-10'', 2)] =
     Inr (WeightedMinHash \<lparr>dim = 10, sample_size = 64\<rparr> [2, 0, 0, 0, 0, 0, 0, 0, 0, 3])"
proof -
  have dim: "weighted_set_option sfc_encoder = Some 10"
    by (simp add: sfc_encoder_def)
  have gen: "weighted_hash_gen sfc_encoder = Some (WeightedMinHashGenerator 10 64)"
    by (simp add: sfc_encoder_def)
  have one: "py_int (PStr ''1'') = Inr 1"
    and ten: "py_int (PStr ''10'') = Inr 10"
    and low: "py_int (PStr ''-11'') = Inr (- 11)"
    and last: "py_int (PStr ''-1'') = Inr (- 1)"
    and first: "py_int (PStr ''-10'') = Inr (- 10)"
    and frac: "py_int (PStr ''1.5'') = Inl ValueError"
    and sep: "py_int (PStr [CHR 0x1C, CHR ''5'']) = Inl ValueError"
    by (simp_all add: parse_int_def strip_def is_space_def is_digit_def digit_val_def max_str_digits_def)
  have big: "py_int (PStr ''9223372036854775808'') = Inr (2 ^ 63)"
    by (simp add: parse_int_def strip_def is_space_def is_digit_def digit_val_def max_str_digits_def)
  note rejects = weighted_set_hashing_rejects [OF dim, where g = "WeightedMinHashGenerator 10 64"]
  have above: "weighted_set_hashing sfc_encoder [(PStr ''1'', 1), (PStr ''10'', 2)] = Inl IndexError"
    using rejects [of "[(PStr ''1'', 1), (PStr ''10'', 2)]"] one ten
    by (simp add: fits_intp_def)
  have below: "weighted_set_hashing sfc_encoder [(PStr ''-11'', 1)] = Inl IndexError"
    using rejects [of "[(PStr ''-11'', 1)]"] low
    by (simp add: fits_intp_def)
  have word: "weighted_set_hashing sfc_encoder [(PStr ''9223372036854775808'', 1)] = Inl OverflowError"
    using rejects [of "[(PStr ''9223372036854775808'', 1)]"] big
    by (simp add: fits_intp_def)
  have frac_call: "weighted_set_hashing sfc_encoder [(PStr ''1'', 1), (PStr ''1.5'', 2)] = Inl ValueError"
    using one frac by (simp add: weighted_set_hashing_def sfc_encoder_def)
  have sep_call: "weighted_set_hashing sfc_encoder [(PStr [CHR 0x1C, CHR ''5''], 1)] = Inl ValueError"
    using sep by (simp add: weighted_set_hashing_def sfc_encoder_def)
  have wrap: "weighted_set_hashing sfc_encoder [(PStr ''-1'', 3), (PStr ''-10'', 2)] =
     Inr (WeightedMinHash \<lparr>dim = 10, sample_size = 64\<rparr> [2, 0, 0, 0, 0, 0, 0, 0, 0, 3])"
  proof -
    have keys: "\<forall>key\<in>fst ` set [(PStr ''-1'', 3::real), (PStr ''-10'', 2)].
        \<exists>i. py_int key = Inr i \<and> - int 10 \<le> i \<and> i < int 10"
      using last first by simp
    have small: "int 10 \<le> 2 ^ 63"
      by simp
    from rejects [of "[(PStr ''-1'', 3), (PStr ''-10'', 2)]", THEN conjunct2, THEN mp,
        OF conjI [OF gen conjI [OF small keys]]]
    obtain vector where "weighted_set_hashing sfc_encoder [(PStr ''-1'', 3), (PStr ''-10'', 2)] =
        minhash (WeightedMinHashGenerator 10 64) vector" and "length vector = 10"
      by blast
    moreover have "weighted_set_hashing sfc_encoder [(PStr ''-1'', 3), (PStr ''-10'', 2)] =
       Inr (WeightedMinHash \<lparr>dim = 10, sample_size = 64\<rparr> [2, 0, 0, 0, 0, 0, 0, 0, 0, 3])"
      using last first
      by (simp add: weighted_set_hashing_def sfc_encoder_def zeros_def minhash_def put_def
          fits_intp_def adjust_def WeightedMinHashGenerator_def Let_def numeral_eq_Suc)
    ultimately show ?thesis by simp
  qed
  show ?thesis
    by (intro conjI) (fact dim ten low last first frac sep big above below frac_call sep_call word wrap)+
qed

end
